theory Spec2Isabelle
  imports Complex_Main "HOL-Library.Word"
begin

section \<open>The print server's request handler (server/index.js)\<close>

text \<open>
  The development models the handler of \<^verbatim>\<open>POST /api/print\<close>: the validation of the
  request body (lines 61-114) and the relay to the printer's socket (lines 118-211).
  Console output is not modelled, except that the arguments of the logging calls are
  evaluated, since a template literal converts its arguments to strings and that
  conversion can raise.
\<close>

subsection \<open>JavaScript values of a parsed body\<close>

text \<open>
  A JavaScript number is a finite double, an infinity or NaN. Every finite double is a
  rational, and the operations the handler applies to numbers (comparison, the test
  against zero, truncation and reduction modulo 256) are exact, so finite numbers are
  modelled as rationals.
\<close>

datatype jsnum = Num rat | PosInf | NegInf | NaN

text \<open>
  A field of \<^verbatim>\<open>req.body\<close> is absent (undefined) or a parsed JSON value. An object is
  the list of its own properties; none of them is callable.
\<close>

datatype jsval =
    JUndefined
  | JNull
  | JBool bool
  | JNum jsnum
  | JStr string
  | JArr "jsval list"
  | JObj "(string \<times> jsval) list"

datatype js_exn = TypeError (exn_message: string)

type_synonym byte = "8 word"

text \<open>
  The conversions between numbers and strings (ECMAScript's Number::toString and
  StringToNumber) belong to the language runtime; they are parameters of the model.
\<close>

record platform =
  NumberToString :: "jsnum \<Rightarrow> string"
  StringToNumber :: "string \<Rightarrow> jsnum"

text \<open>Truthiness, as tested by \<^verbatim>\<open>!x\<close>, \<^verbatim>\<open>x || y\<close> and \<^verbatim>\<open>x ? y : z\<close>.\<close>

fun truthy :: "jsval \<Rightarrow> bool" where
  "truthy JUndefined = False"
| "truthy JNull = False"
| "truthy (JBool b) = b"
| "truthy (JNum n) = (n \<noteq> Num 0 \<and> n \<noteq> NaN)"
| "truthy (JStr s) = (s \<noteq> [])"
| "truthy (JArr xs) = True"
| "truthy (JObj kvs) = True"

fun isArray :: "jsval \<Rightarrow> bool" where
  "isArray (JArr xs) = True"
| "isArray v = False"

fun elements :: "jsval \<Rightarrow> jsval list" where
  "elements (JArr xs) = xs"
| "elements v = []"

text \<open>\<^verbatim>\<open>x || d\<close>\<close>

definition or_else :: "jsval \<Rightarrow> jsval \<Rightarrow> jsval" where
  "or_else x d = (if truthy x then x else d)"

fun intercalate :: "string \<Rightarrow> string list \<Rightarrow> string" where
  "intercalate sep [] = []"
| "intercalate sep [s] = s"
| "intercalate sep (s # t # ss) = s @ sep @ intercalate sep (t # ss)"

text \<open>
  ToString. An array is joined with commas (Array.prototype.join), where undefined and
  null elements give the empty string. For an object, OrdinaryToPrimitive looks up
  \<^verbatim>\<open>toString\<close> and \<^verbatim>\<open>valueOf\<close>: an own property of either name is not callable and is
  skipped, the inherited \<^verbatim>\<open>valueOf\<close> returns the object itself, and the inherited
  \<^verbatim>\<open>toString\<close> returns \<^verbatim>\<open>[object Object]\<close>. So the conversion raises a TypeError
  exactly when the object has an own property \<^verbatim>\<open>toString\<close>; the message is V8's.
\<close>

definition cannot_convert :: js_exn where
  "cannot_convert = TypeError ''Cannot convert object to primitive value''"

fun ToString :: "platform \<Rightarrow> jsval \<Rightarrow> js_exn + string"
  and join_parts :: "platform \<Rightarrow> jsval list \<Rightarrow> js_exn + string list" where
  "ToString P JUndefined = Inr ''undefined''"
| "ToString P JNull = Inr ''null''"
| "ToString P (JBool b) = Inr (if b then ''true'' else ''false'')"
| "ToString P (JNum n) = Inr (NumberToString P n)"
| "ToString P (JStr s) = Inr s"
| "ToString P (JArr xs) =
     (case join_parts P xs of Inl e \<Rightarrow> Inl e | Inr ss \<Rightarrow> Inr (intercalate '','' ss))"
| "ToString P (JObj kvs) =
     (if map_of kvs ''toString'' \<noteq> None then Inl cannot_convert
      else Inr ''[object Object]'')"
| "join_parts P [] = Inr []"
| "join_parts P (x # xs) =
     (case (if x = JUndefined \<or> x = JNull then Inr [] else ToString P x) of
        Inl e \<Rightarrow> Inl e
      | Inr s \<Rightarrow> (case join_parts P xs of Inl e \<Rightarrow> Inl e | Inr ss \<Rightarrow> Inr (s # ss)))"

text \<open>
  ToNumber. For an array or an object, ToPrimitive with hint number gives the same
  string (or raises the same TypeError) as ToString, by the lookup described above.
\<close>

fun ToNumber :: "platform \<Rightarrow> jsval \<Rightarrow> js_exn + jsnum" where
  "ToNumber P JUndefined = Inr NaN"
| "ToNumber P JNull = Inr (Num 0)"
| "ToNumber P (JBool b) = Inr (Num (if b then 1 else 0))"
| "ToNumber P (JNum n) = Inr n"
| "ToNumber P (JStr s) = Inr (StringToNumber P s)"
| "ToNumber P v =
     (case ToString P v of Inl e \<Rightarrow> Inl e | Inr s \<Rightarrow> Inr (StringToNumber P s))"

text \<open>\<^verbatim>\<open>x < y\<close> on numbers: false when either side is NaN.\<close>

fun num_less :: "jsnum \<Rightarrow> jsnum \<Rightarrow> bool" where
  "num_less NaN y = False"
| "num_less x NaN = False"
| "num_less (Num a) (Num b) = (a < b)"
| "num_less (Num a) PosInf = True"
| "num_less (Num a) NegInf = False"
| "num_less PosInf y = False"
| "num_less NegInf NegInf = False"
| "num_less NegInf y = True"

text \<open>
  The element conversion of a Uint8Array (ToUint8): NaN and the infinities give 0, a
  finite number is truncated towards zero and reduced modulo 256.
\<close>

definition trunc :: "rat \<Rightarrow> int" where
  "trunc r = (if r < 0 then \<lceil>r\<rceil> else \<lfloor>r\<rfloor>)"

fun ToUint8 :: "jsnum \<Rightarrow> byte" where
  "ToUint8 (Num r) = word_of_int (trunc r)"
| "ToUint8 n = 0"

text \<open>
  \<^verbatim>\<open>Buffer.from(data)\<close> for an array (Node's fromArrayLike): every element is converted
  with ToNumber and then ToUint8, in order; the first conversion that raises ends it.
\<close>

fun Buffer_from :: "platform \<Rightarrow> jsval list \<Rightarrow> js_exn + byte list" where
  "Buffer_from P [] = Inr []"
| "Buffer_from P (x # xs) =
     (case ToNumber P x of
        Inl e \<Rightarrow> Inl e
      | Inr n \<Rightarrow> (case Buffer_from P xs of Inl e \<Rightarrow> Inl e | Inr bs \<Rightarrow> Inr (ToUint8 n # bs)))"


subsection \<open>The address pattern\<close>

text \<open>
  \<^verbatim>\<open>const ipRegex = /^(\d{1,3}\.){3}\d{1,3}$/\<close>. A pattern is modelled as a function
  from the input to the list of inputs left after each way of matching a prefix;
  \<^verbatim>\<open>test\<close> succeeds when some way of matching leaves nothing (the anchors; without the
  m flag \<^verbatim>\<open>$\<close> matches at the very end only). \<^verbatim>\<open>\d\<close> is an ASCII digit. A character
  of the model is a byte; no byte of a non-ASCII character is a digit or a dot.
\<close>

type_synonym pattern = "string \<Rightarrow> string list"

definition is_digit :: "char \<Rightarrow> bool" where
  "is_digit c = (c \<in> set ''0123456789'')"

fun digit :: pattern where
  "digit [] = []"
| "digit (c # r) = (if is_digit c then [r] else [])"

fun dot :: pattern where
  "dot [] = []"
| "dot (c # r) = (if c = CHR ''.'' then [r] else [])"

definition seq :: "pattern \<Rightarrow> pattern \<Rightarrow> pattern" where
  "seq p q s = concat (map q (p s))"

text \<open>\<^verbatim>\<open>p{n}\<close>\<close>

fun times :: "nat \<Rightarrow> pattern \<Rightarrow> pattern" where
  "times 0 p s = [s]"
| "times (Suc n) p s = seq p (times n p) s"

text \<open>\<^verbatim>\<open>p{1,3}\<close>, the longest repetition first\<close>

definition one_to_three :: "pattern \<Rightarrow> pattern" where
  "one_to_three p s = times 3 p s @ times 2 p s @ times 1 p s"

definition ipRegex :: pattern where
  "ipRegex = seq (times 3 (seq (one_to_three digit) dot)) (one_to_three digit)"

definition ipRegex_test :: "string \<Rightarrow> bool" where
  "ipRegex_test s = ([] \<in> set (ipRegex s))"

text \<open>
  The specification's wording of the same set: four groups of one to three digits,
  separated by dots.
\<close>

fun split_dots :: "string \<Rightarrow> string list" where
  "split_dots [] = [[]]"
| "split_dots (c # cs) =
     (if c = CHR ''.'' then [] # split_dots cs
      else (case split_dots cs of [] \<Rightarrow> [[c]] | g # gs \<Rightarrow> (c # g) # gs))"

definition is_group :: "string \<Rightarrow> bool" where
  "is_group g = (1 \<le> length g \<and> length g \<le> 3 \<and> list_all is_digit g)"

definition four_dot_groups :: "string \<Rightarrow> bool" where
  "four_dot_groups s = (length (split_dots s) = 4 \<and> list_all is_group (split_dots s))"

subsection \<open>Requests and responses\<close>

text \<open>\<^verbatim>\<open>const { ip, port, data } = req.body\<close>\<close>

record request =
  ip :: jsval
  port :: jsval
  data :: jsval

text \<open>
  The objects passed to \<^verbatim>\<open>res.json\<close> and to \<^verbatim>\<open>resolve\<close>; an absent property is
  \<open>None\<close>.
\<close>

record body =
  success :: bool
  error :: "string option"
  message :: "string option"

datatype response = Response (status: nat) (json: body)

definition failure :: "string \<Rightarrow> body" where
  "failure m = \<lparr>success = False, error = Some m, message = None\<rparr>"

definition invalid_request :: response where
  "invalid_request =
     Response 400 \<lparr>success = False, error = Some ''Invalid request'',
                   message = Some ''IP address and data array are required''\<rparr>"

definition invalid_ip :: response where
  "invalid_ip = Response 400 (failure ''Invalid IP address format'')"

definition invalid_port :: response where
  "invalid_port = Response 400 (failure ''Invalid port number (must be 1-65535)'')"

definition empty_data :: response where
  "empty_data = Response 400 (failure ''Print data is empty'')"

definition invalid_data :: "js_exn \<Rightarrow> response" where
  "invalid_data e = Response 400 (failure (''Invalid data format: '' @ exn_message e))"

definition print_sent :: body where
  "print_sent = \<lparr>success = True, error = None, message = Some ''Print job sent successfully''\<rparr>"

subsection \<open>Validation (lines 62-114)\<close>

text \<open>
  \<^verbatim>\<open>data.length\<close> as read by the second logging call: the length of a string or an
  array, the own property \<^verbatim>\<open>length\<close> of an object, undefined otherwise.
\<close>

fun get_length :: "jsval \<Rightarrow> jsval" where
  "get_length (JStr s) = JNum (Num (of_nat (length s)))"
| "get_length (JArr xs) = JNum (Num (of_nat (length xs)))"
| "get_length (JObj kvs) = (case map_of kvs ''length'' of None \<Rightarrow> JUndefined | Some v \<Rightarrow> v)"
| "get_length v = JUndefined"

text \<open>
  Lines 65-67: the template literals convert \<^verbatim>\<open>ip\<close>, \<^verbatim>\<open>port || 9100\<close> and
  \<^verbatim>\<open>data ? data.length : 0\<close> to strings, in this order. Only whether a conversion
  raises matters to the handler.
\<close>

definition log_request :: "platform \<Rightarrow> request \<Rightarrow> js_exn + unit" where
  "log_request P req =
     (case ToString P (ip req) of Inl e \<Rightarrow> Inl e | Inr s1 \<Rightarrow>
      case ToString P (or_else (port req) (JNum (Num 9100))) of Inl e \<Rightarrow> Inl e | Inr s2 \<Rightarrow>
      case ToString P (if truthy (data req) then get_length (data req) else JNum (Num 0)) of
        Inl e \<Rightarrow> Inl e | Inr s3 \<Rightarrow> Inr ())"

text \<open>\<^verbatim>\<open>printerPort < 1 || printerPort > 65535\<close>\<close>

definition port_out_of_range :: "platform \<Rightarrow> jsval \<Rightarrow> js_exn + bool" where
  "port_out_of_range P printerPort =
     (case ToNumber P printerPort of
        Inl e \<Rightarrow> Inl e
      | Inr n \<Rightarrow> Inr (num_less n (Num 1) \<or> num_less (Num 65535) n))"

text \<open>
  The outcome of lines 62-114: the handler raises (\<open>Inl\<close>), replies and returns
  (\<open>Inr (Inl r)\<close>), or goes on with \<^verbatim>\<open>printerPort\<close>, \<^verbatim>\<open>ip\<close> and \<^verbatim>\<open>buffer\<close>.
\<close>

definition validate :: "platform \<Rightarrow> request \<Rightarrow> js_exn + (response + jsval \<times> jsval \<times> byte list)" where
  "validate P req =
     (case log_request P req of Inl e \<Rightarrow> Inl e | Inr u \<Rightarrow>
      if \<not> truthy (ip req) \<or> \<not> truthy (data req) \<or> \<not> isArray (data req)
      then Inr (Inl invalid_request)
      else case ToString P (ip req) of Inl e \<Rightarrow> Inl e | Inr s \<Rightarrow>
      if \<not> ipRegex_test s then Inr (Inl invalid_ip)
      else let printerPort = or_else (port req) (JNum (Num 9100)) in
      case port_out_of_range P printerPort of Inl e \<Rightarrow> Inl e | Inr bad \<Rightarrow>
      if bad then Inr (Inl invalid_port)
      else case Buffer_from P (elements (data req)) of
        Inl e \<Rightarrow> Inr (Inl (invalid_data e))
      | Inr buffer \<Rightarrow>
          if length buffer = 0 then Inr (Inl empty_data)
          else Inr (Inr (printerPort, ip req, buffer)))"

subsection \<open>The relay (lines 118-196)\<close>

text \<open>The calls the promise executor and the socket's listeners make, in order.\<close>

datatype action =
    NewSocket
  | SetTimeout nat
  | SocketConnect jsval jsval
  | SocketWrite "byte list"
  | SocketEnd
  | SocketDestroy
  | Resolve body

text \<open>The variables of the executor's closure, and the calls made so far.\<close>

record relay_state =
  connected :: bool
  printSuccess :: bool
  resolved :: bool
  buffer :: "byte list"
  calls :: "action list"

text \<open>
  What the socket does is the environment's choice: whether \<^verbatim>\<open>socket.connect\<close> raises
  at once (the message, if so), which events it emits, and whether \<^verbatim>\<open>write\<close> or
  \<^verbatim>\<open>end\<close> raises in the connect listener.
\<close>

datatype io = IoOk | WriteThrows string | EndThrows string

datatype event = EvTimeout | EvError string | EvConnect io | EvClose

definition call :: "action \<Rightarrow> relay_state \<Rightarrow> relay_state" where
  "call a s = s\<lparr>calls := calls s @ [a]\<rparr>"

definition resolveOnce :: "body \<Rightarrow> relay_state \<Rightarrow> relay_state" where
  "resolveOnce result s =
     (if \<not> resolved s then call (Resolve result) (s\<lparr>resolved := True\<rparr>) else s)"

definition on_timeout :: "relay_state \<Rightarrow> relay_state" where
  "on_timeout s =
     resolveOnce (failure ''Connection timeout - printer may be offline or unreachable'')
       (call SocketDestroy s)"

definition on_error :: "string \<Rightarrow> relay_state \<Rightarrow> relay_state" where
  "on_error m s = resolveOnce (failure (if m \<noteq> [] then m else ''Connection failed'')) s"

definition on_connect :: "io \<Rightarrow> relay_state \<Rightarrow> relay_state" where
  "on_connect r s =
     (let s1 = s\<lparr>connected := True\<rparr> in
      case r of
        IoOk \<Rightarrow> (call SocketEnd (call (SocketWrite (buffer s1)) s1))\<lparr>printSuccess := True\<rparr>
      | WriteThrows m \<Rightarrow>
          resolveOnce (failure (''Failed to send data: '' @ m)) (call SocketDestroy s1)
      | EndThrows m \<Rightarrow>
          resolveOnce (failure (''Failed to send data: '' @ m))
            (call SocketDestroy (call (SocketWrite (buffer s1)) s1)))"

definition on_close :: "relay_state \<Rightarrow> relay_state" where
  "on_close s =
     (if connected s \<and> printSuccess s then resolveOnce print_sent s
      else if \<not> connected s \<and> \<not> resolved s
      then resolveOnce (failure ''Connection closed unexpectedly'') s
      else s)"

fun deliver :: "relay_state \<Rightarrow> event \<Rightarrow> relay_state" where
  "deliver s EvTimeout = on_timeout s"
| "deliver s (EvError m) = on_error m s"
| "deliver s (EvConnect r) = on_connect r s"
| "deliver s EvClose = on_close s"

text \<open>
  The executor: create the socket, set the timeout, register the listeners, call
  \<^verbatim>\<open>socket.connect(printerPort, ip)\<close>; \<open>thrown\<close> is the message of the error that call
  raises, if it does. Nothing else in the executor raises, so the promise is never
  rejected and the \<^verbatim>\<open>catch\<close> callback of line 204 does not run.
\<close>

definition start_relay :: "jsval \<Rightarrow> jsval \<Rightarrow> byte list \<Rightarrow> string option \<Rightarrow> relay_state" where
  "start_relay printerPort a buf thrown =
     (let s = \<lparr>connected = False, printSuccess = False, resolved = False, buffer = buf,
                calls = [NewSocket, SetTimeout 10000, SocketConnect printerPort a]\<rparr>
      in case thrown of
           None \<Rightarrow> s
         | Some m \<Rightarrow> resolveOnce (failure (''Failed to connect: '' @ m)) s)"

definition run :: "relay_state \<Rightarrow> event list \<Rightarrow> relay_state" where
  "run s evs = foldl deliver s evs"

text \<open>The values \<^verbatim>\<open>resolve\<close> was called with.\<close>

fun resolutions :: "action list \<Rightarrow> body list" where
  "resolutions [] = []"
| "resolutions (Resolve r # as) = r # resolutions as"
| "resolutions (a # as) = resolutions as"

subsection \<open>The handler\<close>

text \<open>
  Lines 197-203: the promise settles with the first value passed to \<^verbatim>\<open>resolve\<close>, and
  the \<^verbatim>\<open>then\<close> callback turns it into the reply (\<^verbatim>\<open>res.json\<close> replies with status
  200).
\<close>

definition then_reply :: "body \<Rightarrow> response" where
  "then_reply result = (if success result then Response 200 result else Response 500 result)"

text \<open>
  A run of the handler ends in one of three ways: it raises before it validates, it
  replies from the validation and returns, or it starts the relay.
\<close>

datatype handler_result =
    Threw js_exn
  | Replied response
  | Relayed relay_state

definition print_handler :: "platform \<Rightarrow> request \<Rightarrow> string option \<Rightarrow> event list \<Rightarrow> handler_result" where
  "print_handler P req thrown evs =
     (case validate P req of
        Inl e \<Rightarrow> Threw e
      | Inr (Inl r) \<Rightarrow> Replied r
      | Inr (Inr (printerPort, a, buf)) \<Rightarrow> Relayed (run (start_relay printerPort a buf thrown) evs))"

text \<open>The calls made on the socket and on \<^verbatim>\<open>resolve\<close> during a run of the handler.\<close>

fun relay_calls :: "handler_result \<Rightarrow> action list" where
  "relay_calls (Relayed s) = calls s"
| "relay_calls r = []"

text \<open>
  The reply the handler sends, if any. The handler is an async function: when it
  raises, its promise is rejected and the handler itself has sent nothing.
\<close>

fun reply :: "handler_result \<Rightarrow> response option" where
  "reply (Threw e) = None"
| "reply (Replied r) = Some r"
| "reply (Relayed s) =
     (case resolutions (calls s) of [] \<Rightarrow> None | result # rs \<Rightarrow> Some (then_reply result))"


subsection \<open>Notions used in the statements\<close>

text \<open>The events that end an attempt: timeout, error and close.\<close>

fun is_final :: "event \<Rightarrow> bool" where
  "is_final EvTimeout = True"
| "is_final (EvError m) = True"
| "is_final EvClose = True"
| "is_final (EvConnect r) = False"

text \<open>
  What holds of the closure's variables after any sequence of events: \<^verbatim>\<open>resolved\<close> is
  set exactly when \<^verbatim>\<open>resolve\<close> has been called, which has happened once then, and a
  connect listener that did not reach \<^verbatim>\<open>printSuccess = true\<close> has resolved.
\<close>

definition relay_inv :: "relay_state \<Rightarrow> bool" where
  "relay_inv s =
     ((if resolved s then length (resolutions (calls s)) = 1 else resolutions (calls s) = []) \<and>
      (connected s \<and> \<not> printSuccess s \<longrightarrow> resolved s))"

text \<open>
  A port as the specification's data model has it: absent, or a number from 1 to 65535.
\<close>

fun valid_port :: "jsval \<Rightarrow> bool" where
  "valid_port JUndefined = True"
| "valid_port (JNum (Num p)) = (1 \<le> p \<and> p \<le> 65535)"
| "valid_port v = False"

text \<open>The JSON array of a sequence of bytes.\<close>

definition js_bytes :: "byte list \<Rightarrow> jsval" where
  "js_bytes bs = JArr (map (\<lambda>b. JNum (Num (of_int (uint b)))) bs)"

text \<open>The address, converted to a string, matches the pattern.\<close>

definition address_matches :: "platform \<Rightarrow> jsval \<Rightarrow> bool" where
  "address_matches P a = (case ToString P a of Inl e \<Rightarrow> False | Inr s \<Rightarrow> ipRegex_test s)"

text \<open>
  The handler gets as far as \<^verbatim>\<open>Buffer.from(data)\<close>: the logging does not raise and the
  checks of lines 70, 81 and 91 pass.
\<close>

definition reaches_conversion :: "platform \<Rightarrow> request \<Rightarrow> bool" where
  "reaches_conversion P req =
     (log_request P req = Inr () \<and>
      truthy (ip req) \<and> truthy (data req) \<and> isArray (data req) \<and>
      address_matches P (ip req) \<and>
      port_out_of_range P (or_else (port req) (JNum (Num 9100))) = Inr False)"

text \<open>The values that are neither arrays nor objects.\<close>

fun is_primitive :: "jsval \<Rightarrow> bool" where
  "is_primitive (JArr xs) = False"
| "is_primitive (JObj kvs) = False"
| "is_primitive v = True"

text \<open>
  The theorems hold for every platform. Closed instances are evaluated with this one;
  the requests evaluated contain no string that is converted to a number, and the
  string of a number is only logged.
\<close>

definition sample_platform :: platform where
  "sample_platform = \<lparr>NumberToString = (\<lambda>n. ''9100''), StringToNumber = (\<lambda>s. NaN)\<rparr>"


section \<open>The address pattern and the specification's wording\<close>

lemma digit_iff: "r \<in> set (digit s) \<longleftrightarrow> (\<exists>c. is_digit c \<and> s = c # r)"
  by (cases s) auto

lemma dot_iff: "r \<in> set (dot s) \<longleftrightarrow> s = CHR ''.'' # r"
  by (cases s) auto

lemma seq_iff: "r \<in> set (seq p q s) \<longleftrightarrow> (\<exists>m \<in> set (p s). r \<in> set (q m))"
  by (auto simp: seq_def)

lemma times_digit_iff:
  "r \<in> set (times n digit s) \<longleftrightarrow> (\<exists>g. length g = n \<and> list_all is_digit g \<and> s = g @ r)"
proof (induction n arbitrary: s)
  case 0
  show ?case by auto
next
  case (Suc n)
  show ?case
  proof
    assume "r \<in> set (times (Suc n) digit s)"
    then obtain c m where c: "is_digit c" "s = c # m" and m: "r \<in> set (times n digit m)"
      by (auto simp: seq_iff digit_iff)
    from m Suc.IH obtain g where "length g = n" "list_all is_digit g" "m = g @ r"
      by blast
    with c have "length (c # g) = Suc n \<and> list_all is_digit (c # g) \<and> s = (c # g) @ r"
      by simp
    then show "\<exists>g. length g = Suc n \<and> list_all is_digit g \<and> s = g @ r"
      by blast
  next
    assume "\<exists>g. length g = Suc n \<and> list_all is_digit g \<and> s = g @ r"
    then obtain g where g: "length g = Suc n" "list_all is_digit g" "s = g @ r"
      by blast
    then obtain c g' where cg: "g = c # g'"
      by (cases g) auto
    with g have "r \<in> set (times n digit (g' @ r))"
      using Suc.IH by auto
    with g cg show "r \<in> set (times (Suc n) digit s)"
      by (auto simp: seq_iff digit_iff)
  qed
qed

lemma group_iff: "r \<in> set (one_to_three digit s) \<longleftrightarrow> (\<exists>g. is_group g \<and> s = g @ r)"
proof -
  have "is_group g \<longleftrightarrow> (length g = 3 \<or> length g = 2 \<or> length g = 1) \<and> list_all is_digit g" for g
    by (auto simp: is_group_def)
  then show ?thesis
    unfolding one_to_three_def set_append Un_iff times_digit_iff by blast
qed

lemma group_dot_iff:
  "r \<in> set (seq (one_to_three digit) dot s) \<longleftrightarrow> (\<exists>g. is_group g \<and> s = g @ CHR ''.'' # r)"
  by (auto simp: seq_iff group_iff dot_iff)

lemma times_0_fun: "times 0 p = (\<lambda>s. [s])"
  by (rule ext) simp

lemma times_Suc_fun: "times (Suc n) p = seq p (times n p)"
  by (rule ext) simp

lemma group_dotI: "is_group g \<Longrightarrow> r \<in> set (seq (one_to_three digit) dot (g @ CHR ''.'' # r))"
  unfolding group_dot_iff by (rule exI [of _ g]) simp

lemma times_three_iff:
  "r \<in> set (times 3 q s) \<longleftrightarrow>
     (\<exists>m1 m2. m1 \<in> set (q s) \<and> m2 \<in> set (q m1) \<and> r \<in> set (q m2))"
proof -
  have "times 3 q s = seq q (seq q (seq q (\<lambda>s. [s]))) s"
    by (simp add: eval_nat_numeral times_Suc_fun times_0_fun)
  then show ?thesis
    by (auto simp: seq_iff)
qed

lemma ipRegex_iff:
  "ipRegex_test s \<longleftrightarrow>
     (\<exists>a b c d. is_group a \<and> is_group b \<and> is_group c \<and> is_group d \<and>
        s = a @ CHR ''.'' # b @ CHR ''.'' # c @ CHR ''.'' # d)"
proof
  assume "ipRegex_test s"
  then obtain r where r: "r \<in> set (times 3 (seq (one_to_three digit) dot) s)"
    and d: "[] \<in> set (one_to_three digit r)"
    unfolding ipRegex_test_def ipRegex_def seq_iff by blast
  from r obtain m1 m2 where
    "m1 \<in> set (seq (one_to_three digit) dot s)"
    "m2 \<in> set (seq (one_to_three digit) dot m1)"
    "r \<in> set (seq (one_to_three digit) dot m2)"
    unfolding times_three_iff by blast
  then obtain a b c where abc: "is_group a" "is_group b" "is_group c"
    and eqs: "s = a @ CHR ''.'' # m1" "m1 = b @ CHR ''.'' # m2" "m2 = c @ CHR ''.'' # r"
    unfolding group_dot_iff by blast
  from d obtain g where g: "is_group g" "r = g"
    unfolding group_iff by auto
  from eqs g have "s = a @ CHR ''.'' # b @ CHR ''.'' # c @ CHR ''.'' # g"
    by simp
  with abc g show "\<exists>a b c d. is_group a \<and> is_group b \<and> is_group c \<and> is_group d \<and>
        s = a @ CHR ''.'' # b @ CHR ''.'' # c @ CHR ''.'' # d"
    by blast
next
  assume "\<exists>a b c d. is_group a \<and> is_group b \<and> is_group c \<and> is_group d \<and>
        s = a @ CHR ''.'' # b @ CHR ''.'' # c @ CHR ''.'' # d"
  then obtain a b c d where g: "is_group a" "is_group b" "is_group c" "is_group d"
    and s: "s = a @ CHR ''.'' # b @ CHR ''.'' # c @ CHR ''.'' # d"
    by blast
  have 1: "b @ CHR ''.'' # c @ CHR ''.'' # d \<in> set (seq (one_to_three digit) dot s)"
    unfolding s using g(1) by (rule group_dotI)
  have 2: "c @ CHR ''.'' # d
      \<in> set (seq (one_to_three digit) dot (b @ CHR ''.'' # c @ CHR ''.'' # d))"
    using g(2) by (rule group_dotI)
  have 3: "d \<in> set (seq (one_to_three digit) dot (c @ CHR ''.'' # d))"
    using g(3) by (rule group_dotI)
  have "d \<in> set (times 3 (seq (one_to_three digit) dot) s)"
    unfolding times_three_iff using 1 2 3 by blast
  moreover have "[] \<in> set (one_to_three digit d)"
    unfolding group_iff using g(4) by simp
  ultimately show "ipRegex_test s"
    unfolding ipRegex_test_def ipRegex_def seq_iff by blast
qed

lemma split_dots_ne: "split_dots s \<noteq> []"
  by (induction s) (simp_all split: list.split)

lemma split_dots_prefix:
  "CHR ''.'' \<notin> set g \<Longrightarrow> split_dots (g @ CHR ''.'' # r) = g # split_dots r"
proof (induction g)
  case Nil
  show ?case by simp
next
  case (Cons c g)
  then have "c \<noteq> CHR ''.''" and "CHR ''.'' \<notin> set g"
    by auto
  with Cons.IH show ?case by simp
qed

lemma split_dots_last: "CHR ''.'' \<notin> set g \<Longrightarrow> split_dots g = [g]"
proof (induction g)
  case Nil
  show ?case by simp
next
  case (Cons c g)
  then have "c \<noteq> CHR ''.''" and "CHR ''.'' \<notin> set g"
    by auto
  with Cons.IH show ?case by simp
qed

lemma not_digit_dot: "\<not> is_digit CHR ''.''"
  by (simp add: is_digit_def)

lemma is_group_no_dot: "is_group g \<Longrightarrow> CHR ''.'' \<notin> set g"
  using not_digit_dot by (auto simp: is_group_def list_all_iff)

lemma split_dots_join: "intercalate ''.'' (split_dots s) = s"
proof (induction s)
  case Nil
  show ?case by simp
next
  case (Cons c cs)
  obtain g gs where sp: "split_dots cs = g # gs"
    using split_dots_ne [of cs] by (cases "split_dots cs") simp_all
  show ?case
  proof (cases gs)
    case Nil
    with Cons sp show ?thesis by simp
  next
    case (Cons h hs)
    with Cons.IH sp show ?thesis by simp
  qed
qed

lemma ipRegex_four_dot_groups: "ipRegex_test s \<longleftrightarrow> four_dot_groups s"
proof
  assume "ipRegex_test s"
  then obtain a b c d where g: "is_group a" "is_group b" "is_group c" "is_group d"
    and s: "s = a @ CHR ''.'' # b @ CHR ''.'' # c @ CHR ''.'' # d"
    unfolding ipRegex_iff by blast
  from g have "split_dots s = [a, b, c, d]"
    unfolding s by (simp add: split_dots_prefix split_dots_last is_group_no_dot)
  with g show "four_dot_groups s"
    by (simp add: four_dot_groups_def)
next
  assume f: "four_dot_groups s"
  then have "length (split_dots s) = Suc (Suc (Suc (Suc 0)))"
    by (simp add: four_dot_groups_def)
  then obtain a b c d where sp: "split_dots s = [a, b, c, d]"
    by (auto simp: length_Suc_conv)
  have "s = intercalate ''.'' (split_dots s)"
    by (simp add: split_dots_join)
  with sp have "s = a @ CHR ''.'' # b @ CHR ''.'' # c @ CHR ''.'' # d"
    by simp
  moreover from f sp have "is_group a \<and> is_group b \<and> is_group c \<and> is_group d"
    by (simp add: four_dot_groups_def)
  ultimately show "ipRegex_test s"
    unfolding ipRegex_iff by blast
qed

section \<open>The relay resolves once\<close>

lemma resolutions_append: "resolutions (xs @ ys) = resolutions xs @ resolutions ys"
  by (induction xs rule: resolutions.induct) simp_all

lemma resolveOnce_resolved: "resolved (resolveOnce r s)"
  by (simp add: resolveOnce_def call_def)

lemma relay_inv_start: "relay_inv (start_relay pp a buf thrown)"
  by (cases thrown) (simp_all add: start_relay_def relay_inv_def resolveOnce_def call_def)

lemma relay_inv_deliver: "relay_inv s \<Longrightarrow> relay_inv (deliver s e)"
proof (cases e)
  case EvTimeout
  assume "relay_inv s"
  with EvTimeout show ?thesis
    by (simp add: relay_inv_def on_timeout_def resolveOnce_def call_def resolutions_append)
next
  case (EvError m)
  assume "relay_inv s"
  with EvError show ?thesis
    by (simp add: relay_inv_def on_error_def resolveOnce_def call_def resolutions_append)
next
  case (EvConnect r)
  assume "relay_inv s"
  with EvConnect show ?thesis
    by (cases r)
      (simp_all add: relay_inv_def on_connect_def Let_def resolveOnce_def call_def
         resolutions_append)
next
  case EvClose
  assume "relay_inv s"
  with EvClose show ?thesis
    by (simp add: relay_inv_def on_close_def resolveOnce_def call_def resolutions_append)
qed

lemma run_snoc: "run s (evs @ [e]) = deliver (run s evs) e"
  by (simp add: run_def)

lemma run_append: "run s (evs @ later) = run (run s evs) later"
  by (simp add: run_def)

lemma run_Cons: "run s (e # evs) = run (deliver s e) evs"
  by (simp add: run_def)

lemma relay_inv_run: "relay_inv s \<Longrightarrow> relay_inv (run s evs)"
  by (induction evs arbitrary: s) (simp_all add: run_def relay_inv_deliver)

lemma deliver_after_resolved:
  "resolved s \<Longrightarrow>
     resolved (deliver s e) \<and> resolutions (calls (deliver s e)) = resolutions (calls s)"
proof (cases e)
  case (EvConnect r)
  assume "resolved s"
  with EvConnect show ?thesis
    by (cases r)
      (simp_all add: on_connect_def Let_def resolveOnce_def call_def resolutions_append)
qed (simp_all add: on_timeout_def on_error_def on_close_def resolveOnce_def call_def
       resolutions_append)

lemma run_after_resolved:
  "resolved s \<Longrightarrow> resolved (run s evs) \<and> resolutions (calls (run s evs)) = resolutions (calls s)"
proof (induction evs arbitrary: s)
  case Nil
  then show ?case by (simp add: run_def)
next
  case (Cons e evs)
  from Cons.prems have "resolved (deliver s e)"
    and "resolutions (calls (deliver s e)) = resolutions (calls s)"
    by (simp_all add: deliver_after_resolved)
  with Cons.IH [of "deliver s e"] show ?case
    by (simp add: run_Cons)
qed

lemma final_resolves: "relay_inv s \<Longrightarrow> is_final e \<Longrightarrow> resolved (deliver s e)"
  by (cases e)
    (auto simp: relay_inv_def on_timeout_def on_error_def on_close_def resolveOnce_def call_def)

lemma final_in_run_resolves:
  assumes "relay_inv s" and "\<exists>e\<in>set evs. is_final e"
  shows "resolved (run s evs)"
proof -
  from assms(2) obtain e where "e \<in> set evs" and fin: "is_final e"
    by blast
  then obtain before after where evs: "evs = before @ e # after"
    by (auto simp: in_set_conv_decomp)
  have "relay_inv (run s before)"
    using assms(1) by (rule relay_inv_run)
  then have "resolved (deliver (run s before) e)"
    using fin by (rule final_resolves)
  then have "resolved (run (deliver (run s before) e) after)"
    by (simp add: run_after_resolved)
  then show ?thesis
    by (simp add: evs run_append run_Cons)
qed


lemma start_relay_thrown_resolved: "resolved (start_relay pp a buf (Some m))"
  by (simp add: start_relay_def resolveOnce_def call_def)

text \<open>
  Claim C1. For every relay attempt (any address, port and buffer, whether or not
  \<^verbatim>\<open>socket.connect\<close> raises) and every sequence of socket events, in any order:
  \<^verbatim>\<open>resolve\<close> is called at most once; it has been called exactly once as soon as
  \<^verbatim>\<open>socket.connect\<close> has raised or the sequence contains a timeout, an error or a
  close event, so that exactly one outcome is produced; and once the attempt is
  resolved, whatever events follow leave the outcome as it is.
\<close>

theorem relay_resolves_exactly_once:
  "length (resolutions (calls (run (start_relay pp a buf thrown) evs))) \<le> 1 \<and>
   (thrown \<noteq> None \<or> (\<exists>e\<in>set evs. is_final e) \<longrightarrow>
      length (resolutions (calls (run (start_relay pp a buf thrown) evs))) = 1) \<and>
   (resolved (run (start_relay pp a buf thrown) evs) \<longrightarrow>
      resolutions (calls (run (start_relay pp a buf thrown) (evs @ later))) =
      resolutions (calls (run (start_relay pp a buf thrown) evs)))"
proof -
  let ?s = "run (start_relay pp a buf thrown) evs"
  have inv: "relay_inv ?s"
    by (simp add: relay_inv_run relay_inv_start)
  then have "length (resolutions (calls ?s)) \<le> 1"
    by (cases "resolved ?s") (simp_all add: relay_inv_def)
  moreover have "length (resolutions (calls ?s)) = 1"
    if "thrown \<noteq> None \<or> (\<exists>e\<in>set evs. is_final e)"
  proof -
    have "resolved ?s"
    proof (cases thrown)
      case (Some m)
      then show ?thesis
        by (simp add: start_relay_thrown_resolved run_after_resolved)
    next
      case None
      with that have "\<exists>e\<in>set evs. is_final e"
        by simp
      with relay_inv_start show ?thesis
        by (rule final_in_run_resolves)
    qed
    with inv show ?thesis
      by (simp add: relay_inv_def)
  qed
  moreover have "resolutions (calls (run (start_relay pp a buf thrown) (evs @ later))) =
      resolutions (calls ?s)" if "resolved ?s"
    using that by (simp add: run_append run_after_resolved)
  ultimately show ?thesis
    by blast
qed

theorem relay_resolves_exactly_once_witness:
  "(\<exists>e\<in>set [EvError ''ECONNREFUSED'', EvClose]. is_final e) \<and>
   length (resolutions (calls (run (start_relay (JNum (Num 9100)) (JStr ''10.0.0.5'') [27] None)
     [EvError ''ECONNREFUSED'', EvClose]))) = 1 \<and>
   resolved (run (start_relay (JNum (Num 9100)) (JStr ''10.0.0.5'') [27] None)
     [EvError ''ECONNREFUSED'', EvClose]) \<and>
   resolutions (calls (run (start_relay (JNum (Num 9100)) (JStr ''10.0.0.5'') [27] None)
     ([EvError ''ECONNREFUSED'', EvClose] @ [EvTimeout, EvClose]))) =
   [failure ''ECONNREFUSED'']"
proof -
  let ?s = "start_relay (JNum (Num 9100)) (JStr ''10.0.0.5'') [27] None"
  let ?evs = "[EvError ''ECONNREFUSED'', EvClose]"
  have fin: "\<exists>e\<in>set ?evs. is_final e"
    by simp
  have res: "resolved (run ?s ?evs)"
    by (simp add: run_def start_relay_def on_error_def on_close_def resolveOnce_def call_def)
  have now: "resolutions (calls (run ?s ?evs)) = [failure ''ECONNREFUSED'']"
    by (simp add: run_def start_relay_def on_error_def on_close_def resolveOnce_def call_def)
  from relay_resolves_exactly_once [of "JNum (Num 9100)" "JStr ''10.0.0.5''" "[27]" None
      ?evs "[EvTimeout, EvClose]"] fin res
  have "length (resolutions (calls (run ?s ?evs))) = 1"
    and "resolutions (calls (run ?s (?evs @ [EvTimeout, EvClose]))) =
      resolutions (calls (run ?s ?evs))"
    by blast+
  with fin res now show ?thesis
    by simp
qed

section \<open>Validation and the start of the relay\<close>

lemma ToNumber_raises: "ToNumber P v = Inl e \<longleftrightarrow> ToString P v = Inl e"
  by (cases v) (simp_all split: sum.splits)

lemma ipRegex_test_nonempty: "ipRegex_test s \<Longrightarrow> s \<noteq> []"
  by (auto simp: ipRegex_iff)

lemma valid_port_passes:
  "valid_port pv \<Longrightarrow>
     port_out_of_range P (or_else pv (JNum (Num 9100))) = Inr False \<and>
     ToString P (or_else pv (JNum (Num 9100))) =
       Inr (NumberToString P (if pv = JUndefined then Num 9100 else (case pv of JNum n \<Rightarrow> n)))"
  by (induction pv rule: valid_port.induct) (auto simp: port_out_of_range_def or_else_def)

lemma trunc_of_int: "trunc (of_int k) = k"
  by (simp add: trunc_def)

lemma trunc_unsigned: "trunc (unsigned (b::byte)) = uint b"
proof -
  have "trunc (of_int (uint b)) = uint b"
    by (rule trunc_of_int)
  then show ?thesis
    by simp
qed

lemma Buffer_from_numbers: "Buffer_from P (map JNum ns) = Inr (map ToUint8 ns)"
  by (induction ns) simp_all

lemma Buffer_from_js_bytes: "Buffer_from P (elements (js_bytes bs)) = Inr bs"
  by (induction bs) (simp_all add: js_bytes_def trunc_unsigned)

lemma validate_accepts:
  assumes "ipRegex_test a" and "valid_port pv" and "Buffer_from P xs = Inr buf" and "buf \<noteq> []"
  shows "validate P \<lparr>ip = JStr a, port = pv, data = JArr xs\<rparr> =
           Inr (Inr (or_else pv (JNum (Num 9100)), JStr a, buf))"
  using assms ipRegex_test_nonempty [of a] valid_port_passes [of pv P]
  by (simp add: validate_def log_request_def)

lemma print_handler_Relayed:
  "print_handler P req thrown evs = Relayed s \<longleftrightarrow>
     (\<exists>pp a buf. validate P req = Inr (Inr (pp, a, buf)) \<and>
        s = run (start_relay pp a buf thrown) evs)"
  by (auto simp: print_handler_def split: sum.splits)

lemma print_handler_snoc:
  "print_handler P req thrown evs = Relayed s \<Longrightarrow>
     print_handler P req thrown (evs @ [e]) = Relayed (deliver s e)"
  by (auto simp: print_handler_def run_snoc split: sum.splits)

lemma print_handler_inv: "print_handler P req thrown evs = Relayed s \<Longrightarrow> relay_inv s"
  by (auto simp: print_handler_Relayed relay_inv_run relay_inv_start)

lemma deliver_extends: "\<exists>ext. calls (deliver s e) = calls s @ ext"
proof (cases e)
  case (EvConnect r)
  then show ?thesis
    by (cases r) (simp_all add: on_connect_def Let_def resolveOnce_def call_def)
qed (simp_all add: on_timeout_def on_error_def on_close_def resolveOnce_def call_def)

lemma run_extends: "\<exists>ext. calls (run s evs) = calls s @ ext"
proof (induction evs arbitrary: s)
  case Nil
  show ?case by (simp add: run_def)
next
  case (Cons e evs)
  obtain x where x: "calls (deliver s e) = calls s @ x"
    using deliver_extends by blast
  obtain y where "calls (run (deliver s e) evs) = calls (deliver s e) @ y"
    using Cons.IH by blast
  with x show ?case
    by (simp add: run_Cons)
qed

lemma start_relay_calls:
  "\<exists>ext. calls (start_relay pp a buf thrown) = [NewSocket, SetTimeout 10000, SocketConnect pp a] @ ext"
  by (cases thrown) (simp_all add: start_relay_def resolveOnce_def call_def)

lemma relayed_calls_start:
  assumes "print_handler P req thrown evs = Relayed s"
  shows "\<exists>pp a ext. calls s = [NewSocket, SetTimeout 10000, SocketConnect pp a] @ ext"
proof -
  from assms obtain pp a buf where s: "s = run (start_relay pp a buf thrown) evs"
    unfolding print_handler_Relayed by blast
  obtain x where "calls (start_relay pp a buf thrown) = [NewSocket, SetTimeout 10000, SocketConnect pp a] @ x"
    using start_relay_calls by blast
  moreover obtain y where "calls s = calls (start_relay pp a buf thrown) @ y"
    unfolding s using run_extends by blast
  ultimately show ?thesis
    by simp
qed

lemma trunc_numeral: "trunc (numeral n) = numeral n"
  using trunc_of_int [of "numeral n"] by simp

lemma trunc_neg_one: "trunc (- 1) = - 1"
  using trunc_of_int [of "- 1"] by simp

lemma sample_request_relayed:
  "print_handler sample_platform
     \<lparr>ip = JStr ''192.168.1.100'', port = JNum (Num 9100), data = JArr [JNum (Num 27)]\<rparr>
     None [] =
   Relayed \<lparr>connected = False, printSuccess = False, resolved = False, buffer = [27],
            calls = [NewSocket, SetTimeout 10000,
                     SocketConnect (JNum (Num 9100)) (JStr ''192.168.1.100'')]\<rparr>"
proof -
  have "ipRegex_test ''192.168.1.100''"
    by (simp add: ipRegex_four_dot_groups four_dot_groups_def is_group_def is_digit_def)
  then show ?thesis
    by (simp add: print_handler_def validate_def log_request_def or_else_def
        port_out_of_range_def trunc_numeral run_def start_relay_def)
qed

lemma run_connect_close:
  "calls (run (start_relay pp a buf None) [EvConnect IoOk, EvClose]) =
     [NewSocket, SetTimeout 10000, SocketConnect pp a, SocketWrite buf, SocketEnd,
      Resolve print_sent]"
  by (simp add: run_def start_relay_def on_connect_def Let_def on_close_def resolveOnce_def
      call_def)

lemma run_connect:
  "calls (run (start_relay pp a buf None) [EvConnect IoOk]) =
     [NewSocket, SetTimeout 10000, SocketConnect pp a, SocketWrite buf, SocketEnd]"
  by (simp add: run_def start_relay_def on_connect_def Let_def call_def)

lemma validate_rejects_400: "validate P req = Inr (Inl r) \<Longrightarrow> status r = 400"
  by (auto simp: validate_def invalid_request_def invalid_ip_def invalid_port_def
      invalid_data_def empty_data_def Let_def split: sum.splits if_splits)

lemma rejection_opens_no_socket:
  assumes "print_handler P req thrown evs = Replied r"
  shows "status r = 400 \<and> relay_calls (print_handler P req thrown evs) = []"
proof -
  from assms have "validate P req = Inr (Inl r)"
    by (auto simp: print_handler_def split: sum.splits)
  then have "status r = 400"
    by (rule validate_rejects_400)
  with assms show ?thesis
    by simp
qed

lemma ToNumber_primitive: "is_primitive x \<Longrightarrow> \<exists>n. ToNumber P x = Inr n"
  by (cases x) simp_all

lemma Buffer_from_primitives: "list_all is_primitive xs \<Longrightarrow> \<exists>bs. Buffer_from P xs = Inr bs"
proof (induction xs)
  case Nil
  show ?case by simp
next
  case (Cons x xs)
  then obtain n bs where "ToNumber P x = Inr n" and "Buffer_from P xs = Inr bs"
    using ToNumber_primitive [of x P] by auto
  then show ?case
    by simp
qed

lemma nonzero_port_out_of_range_rejected:
  assumes "ipRegex_test a" and "p \<noteq> 0" and "p < 1 \<or> 65535 < p"
  shows "print_handler P \<lparr>ip = JStr a, port = JNum (Num p), data = JArr xs\<rparr> thrown evs =
           Replied (Response 400 \<lparr>success = False,
             error = Some ''Invalid port number (must be 1-65535)'', message = None\<rparr>)"
  using assms ipRegex_test_nonempty [of a]
  by (auto simp: print_handler_def validate_def log_request_def or_else_def
      port_out_of_range_def invalid_port_def failure_def)

section \<open>The claims about validation\<close>

text \<open>
  Claim C2 says that every request whose port is below 1 or above 65535 is rejected at
  validation, with status 400 and the error
  \<^verbatim>\<open>Invalid port number (must be 1-65535)\<close>. At port 0 the handler does not do so:
  \<^verbatim>\<open>port || 9100\<close> replaces the falsy 0 by 9100 before the range check of line 91 runs.
  The request \<^verbatim>\<open>{ip: "192.168.1.100", port: 0, data: [27]}\<close> is not rejected; the
  handler creates the socket and connects it to port 9100. (Every other number below 1
  or above 65535 is rejected, as the lemma just above shows.)
\<close>

theorem port_zero_not_rejected:
  "print_handler sample_platform
      \<lparr>ip = JStr ''192.168.1.100'', port = JNum (Num 0), data = JArr [JNum (Num 27)]\<rparr>
      None [] =
    Relayed \<lparr>connected = False, printSuccess = False, resolved = False, buffer = [27],
             calls = [NewSocket, SetTimeout 10000,
                      SocketConnect (JNum (Num 9100)) (JStr ''192.168.1.100'')]\<rparr>"
proof -
  have "ipRegex_test ''192.168.1.100''"
    by (simp add: ipRegex_four_dot_groups four_dot_groups_def is_group_def is_digit_def)
  then show ?thesis
    by (simp add: print_handler_def validate_def log_request_def or_else_def
        port_out_of_range_def trunc_def run_def start_relay_def)
qed

text \<open>
  Claim C3, amended. For every request that gets as far as the conversion of its
  payload array to a buffer: when the conversion fails with a raised error, the handler
  replies with status 400 and the error \<^verbatim>\<open>Invalid data format: \<close> followed by the
  message of that error, whatever the socket would have done. The conversion does not
  raise for elements that are numbers (also outside 0-255), strings, booleans or null;
  it raises for an element that is an object with an own property \<^verbatim>\<open>toString\<close>.
\<close>

theorem conversion_error_rejected:
  "(reaches_conversion P req \<and> Buffer_from P (elements (data req)) = Inl e \<longrightarrow>
      print_handler P req thrown evs =
        Replied (Response 400 \<lparr>success = False,
          error = Some (''Invalid data format: '' @ exn_message e), message = None\<rparr>)) \<and>
   (list_all is_primitive xs \<longrightarrow> Buffer_from P xs \<noteq> Inl e') \<and>
   (map_of kvs ''toString'' \<noteq> None \<longrightarrow>
      Buffer_from P (JObj kvs # ys) =
        Inl (TypeError ''Cannot convert object to primitive value''))"
proof -
  have rej: "print_handler P req thrown evs =
        Replied (Response 400 \<lparr>success = False,
          error = Some (''Invalid data format: '' @ exn_message e), message = None\<rparr>)"
    if r: "reaches_conversion P req" and b: "Buffer_from P (elements (data req)) = Inl e"
  proof -
    from r obtain s where "ToString P (ip req) = Inr s" and "ipRegex_test s"
      by (auto simp: reaches_conversion_def address_matches_def split: sum.splits)
    with r b show ?thesis
      by (simp add: print_handler_def validate_def reaches_conversion_def invalid_data_def
          failure_def)
  qed
  have prim: "Buffer_from P xs \<noteq> Inl e'" if "list_all is_primitive xs"
    using Buffer_from_primitives [OF that, of P] by auto
  have obj: "Buffer_from P (JObj kvs # ys) =
        Inl (TypeError ''Cannot convert object to primitive value'')"
    if "map_of kvs ''toString'' \<noteq> None"
    using that by (simp add: cannot_convert_def)
  from rej prim obj show ?thesis
    by blast
qed

theorem conversion_error_rejected_witness:
  "reaches_conversion sample_platform
     \<lparr>ip = JStr ''192.168.1.100'', port = JUndefined,
       data = JArr [JNum (Num 27), JObj [(''toString'', JNum (Num 1))]]\<rparr> \<and>
   Buffer_from sample_platform [JNum (Num 27), JObj [(''toString'', JNum (Num 1))]] =
     Inl (TypeError ''Cannot convert object to primitive value'') \<and>
   print_handler sample_platform
       \<lparr>ip = JStr ''192.168.1.100'', port = JUndefined,
         data = JArr [JNum (Num 27), JObj [(''toString'', JNum (Num 1))]]\<rparr> None [] =
     Replied (Response 400 \<lparr>success = False,
       error = Some ''Invalid data format: Cannot convert object to primitive value'',
       message = None\<rparr>) \<and>
   list_all is_primitive [JNum (Num 300), JNum (Num (- 1)), JStr ''abc'', JBool True, JNull] \<and>
   Buffer_from sample_platform
       [JNum (Num 300), JNum (Num (- 1)), JStr ''abc'', JBool True, JNull] \<noteq>
     Inl (TypeError ''Cannot convert object to primitive value'') \<and>
   map_of [(''toString'', JNum (Num 1))] ''toString'' \<noteq> None \<and>
   Buffer_from sample_platform [JObj [(''toString'', JNum (Num 1))], JNum (Num 27)] =
     Inl (TypeError ''Cannot convert object to primitive value'')"
proof -
  let ?req = "\<lparr>ip = JStr ''192.168.1.100'', port = JUndefined,
       data = JArr [JNum (Num 27), JObj [(''toString'', JNum (Num 1))]]\<rparr>"
  let ?e = "TypeError ''Cannot convert object to primitive value''"
  let ?xs = "[JNum (Num 300), JNum (Num (- 1)), JStr ''abc'', JBool True, JNull]"
  note inst = conversion_error_rejected [where P = sample_platform and req = ?req
      and e = ?e and e' = ?e and thrown = None and evs = "[]" and xs = ?xs
      and kvs = "[(''toString'', JNum (Num 1))]" and ys = "[JNum (Num 27)]"]
  have a: "ipRegex_test ''192.168.1.100''"
    by (simp add: ipRegex_four_dot_groups four_dot_groups_def is_group_def is_digit_def)
  then have r: "reaches_conversion sample_platform ?req"
    by (simp add: reaches_conversion_def log_request_def or_else_def address_matches_def
        port_out_of_range_def)
  have b: "Buffer_from sample_platform (elements (data ?req)) = Inl ?e"
    by (simp add: cannot_convert_def)
  have p: "list_all is_primitive ?xs"
    by simp
  have k: "map_of [(''toString'', JNum (Num 1))] ''toString'' \<noteq> None"
    by simp
  from inst r b have c1: "print_handler sample_platform ?req None [] =
     Replied (Response 400 \<lparr>success = False,
       error = Some (''Invalid data format: '' @ exn_message ?e), message = None\<rparr>)"
    by blast
  from inst p have c2: "Buffer_from sample_platform ?xs \<noteq> Inl ?e"
    by blast
  from inst k have c3: "Buffer_from sample_platform
      [JObj [(''toString'', JNum (Num 1))], JNum (Num 27)] = Inl ?e"
    by blast
  have b': "Buffer_from sample_platform
      [JNum (Num 27), JObj [(''toString'', JNum (Num 1))]] = Inl ?e"
    using b by simp
  from c1 have c1': "print_handler sample_platform ?req None [] =
     Replied (Response 400 \<lparr>success = False,
       error = Some ''Invalid data format: Cannot convert object to primitive value'',
       message = None\<rparr>)"
    by simp
  from r b' c1' p c2 k c3 show ?thesis
    by blast
qed

text \<open>
  Claim C3 as it is stated, with element values outside 0-255 as a case of a
  conversion that raises and is rejected, fails at the payload \<^verbatim>\<open>[300]\<close>: the
  conversion gives the byte 44 without raising, the request is accepted, and when the
  socket connects and closes the reply is status 200.
\<close>

theorem out_of_range_value_counterexample:
  "Buffer_from sample_platform [JNum (Num 300)] = Inr [44] \<and>
   reply (print_handler sample_platform
     \<lparr>ip = JStr ''192.168.1.100'', port = JNum (Num 9100), data = JArr [JNum (Num 300)]\<rparr>
     None [EvConnect IoOk, EvClose]) =
     Some (Response 200 \<lparr>success = True, error = None,
                          message = Some ''Print job sent successfully''\<rparr>)"
proof -
  have b: "Buffer_from sample_platform [JNum (Num 300)] = Inr [44]"
    by (simp add: trunc_numeral)
  have "ipRegex_test ''192.168.1.100''"
    by (simp add: ipRegex_four_dot_groups four_dot_groups_def is_group_def is_digit_def)
  then have "validate sample_platform
     \<lparr>ip = JStr ''192.168.1.100'', port = JNum (Num 9100), data = JArr [JNum (Num 300)]\<rparr> =
     Inr (Inr (or_else (JNum (Num 9100)) (JNum (Num 9100)), JStr ''192.168.1.100'', [44]))"
    using b by (intro validate_accepts) simp_all
  then have "reply (print_handler sample_platform
     \<lparr>ip = JStr ''192.168.1.100'', port = JNum (Num 9100), data = JArr [JNum (Num 300)]\<rparr>
     None [EvConnect IoOk, EvClose]) =
     Some (Response 200 \<lparr>success = True, error = None,
                          message = Some ''Print job sent successfully''\<rparr>)"
    by (simp add: print_handler_def run_connect_close print_sent_def then_reply_def)
  with b show ?thesis
    by (rule conjI)
qed

text \<open>
  Claim C7, amended. The test of the address pattern accepts a string exactly when it
  consists of four groups of one to three digits separated by dots, with no check of
  the range of a group: \<^verbatim>\<open>999.999.999.999\<close> is accepted, and a request with an
  accepted address, a valid port and a payload that converts to a non-empty buffer
  goes on to \<^verbatim>\<open>socket.connect\<close> with that address. A non-empty string that does not
  match is rejected with status 400 and the error \<^verbatim>\<open>Invalid IP address format\<close>, in a
  request whose payload is an array and whose logging does not raise.
\<close>

theorem address_pattern_only:
  "(ipRegex_test a \<longleftrightarrow> four_dot_groups a) \<and>
   ipRegex_test ''999.999.999.999'' \<and>
   (four_dot_groups a \<and> valid_port pv \<and> Buffer_from P xs = Inr buf \<and> buf \<noteq> [] \<longrightarrow>
      SocketConnect (or_else pv (JNum (Num 9100))) (JStr a) \<in>
        set (relay_calls (print_handler P \<lparr>ip = JStr a, port = pv, data = JArr xs\<rparr>
          thrown evs))) \<and>
   (a \<noteq> [] \<and> \<not> four_dot_groups a \<and>
    log_request P \<lparr>ip = JStr a, port = pv, data = JArr xs\<rparr> = Inr () \<longrightarrow>
      print_handler P \<lparr>ip = JStr a, port = pv, data = JArr xs\<rparr> thrown evs =
        Replied (Response 400 \<lparr>success = False, error = Some ''Invalid IP address format'',
                                message = None\<rparr>))"
proof -
  have eq: "ipRegex_test a \<longleftrightarrow> four_dot_groups a"
    by (rule ipRegex_four_dot_groups)
  have nines: "ipRegex_test ''999.999.999.999''"
    by (simp add: ipRegex_four_dot_groups four_dot_groups_def is_group_def is_digit_def)
  have acc: "SocketConnect (or_else pv (JNum (Num 9100))) (JStr a) \<in>
        set (relay_calls (print_handler P \<lparr>ip = JStr a, port = pv, data = JArr xs\<rparr>
          thrown evs))"
    if "four_dot_groups a" and "valid_port pv" and "Buffer_from P xs = Inr buf" and "buf \<noteq> []"
  proof -
    let ?pp = "or_else pv (JNum (Num 9100))"
    have "validate P \<lparr>ip = JStr a, port = pv, data = JArr xs\<rparr> = Inr (Inr (?pp, JStr a, buf))"
      using that by (intro validate_accepts) (simp_all add: eq)
    then have h: "print_handler P \<lparr>ip = JStr a, port = pv, data = JArr xs\<rparr> thrown evs =
        Relayed (run (start_relay ?pp (JStr a) buf thrown) evs)"
      by (simp add: print_handler_def)
    obtain x where x: "calls (start_relay ?pp (JStr a) buf thrown) =
        [NewSocket, SetTimeout 10000, SocketConnect ?pp (JStr a)] @ x"
      using start_relay_calls by blast
    obtain y where "calls (run (start_relay ?pp (JStr a) buf thrown) evs) =
        calls (start_relay ?pp (JStr a) buf thrown) @ y"
      using run_extends by blast
    with x h show ?thesis
      by simp
  qed
  have rej: "print_handler P \<lparr>ip = JStr a, port = pv, data = JArr xs\<rparr> thrown evs =
        Replied (Response 400 \<lparr>success = False, error = Some ''Invalid IP address format'',
                                message = None\<rparr>)"
    if "a \<noteq> []" and "\<not> four_dot_groups a"
      and "log_request P \<lparr>ip = JStr a, port = pv, data = JArr xs\<rparr> = Inr ()"
    using that by (simp add: print_handler_def validate_def eq invalid_ip_def failure_def)
  from eq nines acc rej show ?thesis
    by blast
qed

theorem address_pattern_only_witness:
  "four_dot_groups ''999.999.999.999'' \<and> valid_port JUndefined \<and>
   Buffer_from sample_platform [JNum (Num 27)] = Inr [27] \<and> [27] \<noteq> ([] :: byte list) \<and>
   SocketConnect (JNum (Num 9100)) (JStr ''999.999.999.999'') \<in>
     set (relay_calls (print_handler sample_platform
       \<lparr>ip = JStr ''999.999.999.999'', port = JUndefined, data = JArr [JNum (Num 27)]\<rparr>
       None [])) \<and>
   ''192.168.1'' \<noteq> [] \<and> \<not> four_dot_groups ''192.168.1'' \<and>
   log_request sample_platform
     \<lparr>ip = JStr ''192.168.1'', port = JUndefined, data = JArr [JNum (Num 27)]\<rparr> = Inr () \<and>
   print_handler sample_platform
     \<lparr>ip = JStr ''192.168.1'', port = JUndefined, data = JArr [JNum (Num 27)]\<rparr> None [] =
     Replied (Response 400 \<lparr>success = False, error = Some ''Invalid IP address format'',
                             message = None\<rparr>)"
proof -
  have a: "four_dot_groups ''999.999.999.999''"
    by (simp add: four_dot_groups_def is_group_def is_digit_def)
  have p: "valid_port JUndefined"
    by simp
  have b: "Buffer_from sample_platform [JNum (Num 27)] = Inr [27]"
    by (simp add: trunc_def)
  have n: "[27] \<noteq> ([] :: byte list)"
    by simp
  have c: "SocketConnect (or_else JUndefined (JNum (Num 9100))) (JStr ''999.999.999.999'') \<in>
     set (relay_calls (print_handler sample_platform
       \<lparr>ip = JStr ''999.999.999.999'', port = JUndefined, data = JArr [JNum (Num 27)]\<rparr>
       None []))"
    using address_pattern_only [of "''999.999.999.999''" JUndefined sample_platform
        "[JNum (Num 27)]" "[27]" None "[]"] a p b n
    by blast
  have s: "''192.168.1'' \<noteq> []"
    by simp
  have m: "\<not> four_dot_groups ''192.168.1''"
    by (simp add: four_dot_groups_def)
  have l: "log_request sample_platform
     \<lparr>ip = JStr ''192.168.1'', port = JUndefined, data = JArr [JNum (Num 27)]\<rparr> = Inr ()"
    by (simp add: log_request_def or_else_def)
  have r: "print_handler sample_platform
     \<lparr>ip = JStr ''192.168.1'', port = JUndefined, data = JArr [JNum (Num 27)]\<rparr> None [] =
     Replied (Response 400 \<lparr>success = False, error = Some ''Invalid IP address format'',
                             message = None\<rparr>)"
    using address_pattern_only [of "''192.168.1''" JUndefined sample_platform
        "[JNum (Num 27)]" "[27]" None "[]"] s m l
    by blast
  from a p b n c s m l r show ?thesis
    by (simp add: or_else_def)
qed

text \<open>
  Claim C7 as it is stated, for any address that does not match, fails at the empty
  string: it does not match the pattern, and the presence check of line 70 rejects it
  with the error \<^verbatim>\<open>Invalid request\<close>, not \<^verbatim>\<open>Invalid IP address format\<close>.
\<close>

theorem empty_address_counterexample:
  "\<not> ipRegex_test '''' \<and>
   reply (print_handler sample_platform
     \<lparr>ip = JStr '''', port = JUndefined, data = JArr [JNum (Num 27)]\<rparr> None []) =
     Some (Response 400 \<lparr>success = False, error = Some ''Invalid request'',
                          message = Some ''IP address and data array are required''\<rparr>) \<and>
   reply (print_handler sample_platform
     \<lparr>ip = JStr '''', port = JUndefined, data = JArr [JNum (Num 27)]\<rparr> None []) \<noteq>
     Some (Response 400 \<lparr>success = False, error = Some ''Invalid IP address format'',
                          message = None\<rparr>)"
proof -
  have "\<not> ipRegex_test ''''"
    using ipRegex_test_nonempty by blast
  then show ?thesis
    by (simp add: print_handler_def validate_def log_request_def or_else_def
        invalid_request_def)
qed

text \<open>
  Claim C8 says that every request that fails validation, a request with a port out of
  range included, is answered before any socket is created, with no connection
  attempt. At port 0 the handler does otherwise. The port 0 is out of range, and the
  handler's own range test of line 91 says so when it is applied to 0; but
  \<^verbatim>\<open>port || 9100\<close> on line 88 replaces the 0 by 9100 before the test runs. For the
  request \<^verbatim>\<open>{ip: "192.168.1.100", port: 0, data: [27]}\<close> the handler sends no reply
  from the validation, creates the socket and calls \<^verbatim>\<open>socket.connect\<close>. (Whenever the
  handler does reply from the validation, the status is 400 and no call on a socket is
  made, as the lemma on rejections above shows.)
\<close>

theorem port_zero_opens_socket:
  "\<not> valid_port (JNum (Num 0)) \<and>
   port_out_of_range sample_platform (JNum (Num 0)) = Inr True \<and>
   reply (print_handler sample_platform
      \<lparr>ip = JStr ''192.168.1.100'', port = JNum (Num 0), data = JArr [JNum (Num 27)]\<rparr>
      None []) = None \<and>
   relay_calls (print_handler sample_platform
      \<lparr>ip = JStr ''192.168.1.100'', port = JNum (Num 0), data = JArr [JNum (Num 27)]\<rparr>
      None []) =
     [NewSocket, SetTimeout 10000, SocketConnect (JNum (Num 9100)) (JStr ''192.168.1.100'')]"
proof -
  have "ipRegex_test ''192.168.1.100''"
    by (simp add: ipRegex_four_dot_groups four_dot_groups_def is_group_def is_digit_def)
  then show ?thesis
    by (simp add: print_handler_def validate_def log_request_def or_else_def
        port_out_of_range_def trunc_numeral run_def start_relay_def)
qed

text \<open>
  Claim C9. A request with port 0, a matching address and a payload that converts to a
  non-empty buffer is not rejected: \<^verbatim>\<open>0 || 9100\<close> is 9100, the handler starts the
  relay with port 9100, and \<^verbatim>\<open>socket.connect\<close> is called with port 9100.
\<close>

theorem port_zero_defaults:
  assumes "ipRegex_test a" and "Buffer_from P xs = Inr buf" and "buf \<noteq> []"
  shows "or_else (JNum (Num 0)) (JNum (Num 9100)) = JNum (Num 9100) \<and>
    print_handler P \<lparr>ip = JStr a, port = JNum (Num 0), data = JArr xs\<rparr> thrown evs =
      Relayed (run (start_relay (JNum (Num 9100)) (JStr a) buf thrown) evs) \<and>
    SocketConnect (JNum (Num 9100)) (JStr a) \<in>
      set (relay_calls (print_handler P \<lparr>ip = JStr a, port = JNum (Num 0), data = JArr xs\<rparr>
        thrown evs))"
proof -
  have v: "validate P \<lparr>ip = JStr a, port = JNum (Num 0), data = JArr xs\<rparr> =
      Inr (Inr (JNum (Num 9100), JStr a, buf))"
    using assms ipRegex_test_nonempty [of a]
    by (simp add: validate_def log_request_def or_else_def port_out_of_range_def)
  obtain x where x: "calls (start_relay (JNum (Num 9100)) (JStr a) buf thrown) =
      [NewSocket, SetTimeout 10000, SocketConnect (JNum (Num 9100)) (JStr a)] @ x"
    using start_relay_calls by blast
  obtain y where "calls (run (start_relay (JNum (Num 9100)) (JStr a) buf thrown) evs) =
      calls (start_relay (JNum (Num 9100)) (JStr a) buf thrown) @ y"
    using run_extends by blast
  with x v show ?thesis
    by (simp add: print_handler_def or_else_def)
qed

theorem port_zero_defaults_witness:
  "ipRegex_test ''192.168.1.100'' \<and>
   Buffer_from sample_platform [JNum (Num 27), JNum (Num 64)] = Inr [27, 64] \<and>
   [27, 64] \<noteq> ([] :: byte list) \<and>
   print_handler sample_platform
       \<lparr>ip = JStr ''192.168.1.100'', port = JNum (Num 0),
         data = JArr [JNum (Num 27), JNum (Num 64)]\<rparr> None [] =
     Relayed (run (start_relay (JNum (Num 9100)) (JStr ''192.168.1.100'') [27, 64] None) [])"
proof -
  have a: "ipRegex_test ''192.168.1.100''"
    by (simp add: ipRegex_four_dot_groups four_dot_groups_def is_group_def is_digit_def)
  have b: "Buffer_from sample_platform [JNum (Num 27), JNum (Num 64)] = Inr [27, 64]"
    by (simp add: trunc_def)
  have n: "[27, 64] \<noteq> ([] :: byte list)"
    by simp
  from port_zero_defaults [OF a b n, of None "[]"] a b n show ?thesis
    by blast
qed

text \<open>
  Claim C10. Converting an array of numbers to a buffer never raises: every element is
  converted by ToUint8, which truncates a finite number towards zero and reduces it
  modulo 256, so an integer \<open>k\<close> becomes \<open>k mod 256\<close> (300 becomes 44 and -1 becomes
  255). Such a payload is accepted: with a matching address and a valid port the
  handler starts the relay, and on the connect event exactly these bytes are written
  to the socket.
\<close>

theorem out_of_range_bytes_wrap:
  "Buffer_from P (map JNum ns) = Inr (map ToUint8 ns) \<and>
   uint (ToUint8 (Num r)) = trunc r mod 256 \<and>
   uint (ToUint8 (Num (of_int k))) = k mod 256 \<and>
   ToUint8 (Num 300) = 44 \<and> ToUint8 (Num (- 1)) = 255 \<and>
   (ipRegex_test a \<and> valid_port pv \<and> ns \<noteq> [] \<longrightarrow>
      relay_calls (print_handler P \<lparr>ip = JStr a, port = pv, data = JArr (map JNum ns)\<rparr> None
          [EvConnect IoOk]) =
        [NewSocket, SetTimeout 10000, SocketConnect (or_else pv (JNum (Num 9100))) (JStr a),
         SocketWrite (map ToUint8 ns), SocketEnd])"
proof -
  have conv: "Buffer_from P (map JNum ns) = Inr (map ToUint8 ns)"
    by (rule Buffer_from_numbers)
  have gen: "uint (ToUint8 (Num r)) = trunc r mod 256"
    by (simp add: uint_word_of_int)
  have wrap: "uint (ToUint8 (Num (of_int k))) = k mod 256"
    by (simp add: trunc_of_int uint_word_of_int)
  have ex: "ToUint8 (Num 300) = 44 \<and> ToUint8 (Num (- 1)) = 255"
    by (simp add: trunc_numeral trunc_neg_one)
  have sent: "relay_calls (print_handler P \<lparr>ip = JStr a, port = pv, data = JArr (map JNum ns)\<rparr>
        None [EvConnect IoOk]) =
      [NewSocket, SetTimeout 10000, SocketConnect (or_else pv (JNum (Num 9100))) (JStr a),
       SocketWrite (map ToUint8 ns), SocketEnd]"
    if "ipRegex_test a" and "valid_port pv" and "ns \<noteq> []"
  proof -
    have "validate P \<lparr>ip = JStr a, port = pv, data = JArr (map JNum ns)\<rparr> =
        Inr (Inr (or_else pv (JNum (Num 9100)), JStr a, map ToUint8 ns))"
      using that conv by (intro validate_accepts) simp_all
    then show ?thesis
      by (simp add: print_handler_def run_connect)
  qed
  from conv gen wrap ex sent show ?thesis
    by blast
qed

theorem out_of_range_bytes_wrap_witness:
  "ipRegex_test ''192.168.1.100'' \<and> valid_port JUndefined \<and>
   [Num 300, Num (- 1), Num 27] \<noteq> [] \<and>
   relay_calls (print_handler sample_platform
       \<lparr>ip = JStr ''192.168.1.100'', port = JUndefined,
         data = JArr [JNum (Num 300), JNum (Num (- 1)), JNum (Num 27)]\<rparr> None
       [EvConnect IoOk]) =
     [NewSocket, SetTimeout 10000, SocketConnect (JNum (Num 9100)) (JStr ''192.168.1.100''),
      SocketWrite [44, 255, 27], SocketEnd]"
proof -
  have a: "ipRegex_test ''192.168.1.100''"
    by (simp add: ipRegex_four_dot_groups four_dot_groups_def is_group_def is_digit_def)
  have p: "valid_port JUndefined"
    by simp
  have n: "[Num 300, Num (- 1), Num 27] \<noteq> []"
    by simp
  have b: "map ToUint8 [Num 300, Num (- 1), Num 27] = [44, 255, 27]"
    by (simp add: trunc_numeral trunc_neg_one)
  from out_of_range_bytes_wrap [of sample_platform "[Num 300, Num (- 1), Num 27]" 0 0
      "''192.168.1.100''" JUndefined] a p n
  have "relay_calls (print_handler sample_platform
       \<lparr>ip = JStr ''192.168.1.100'', port = JUndefined,
         data = JArr (map JNum [Num 300, Num (- 1), Num 27])\<rparr> None [EvConnect IoOk]) =
     [NewSocket, SetTimeout 10000,
      SocketConnect (or_else JUndefined (JNum (Num 9100))) (JStr ''192.168.1.100''),
      SocketWrite (map ToUint8 [Num 300, Num (- 1), Num 27]), SocketEnd]"
    by blast
  with a p n b show ?thesis
    by (simp add: or_else_def)
qed

section \<open>The claims about the outcome of the relay\<close>

text \<open>
  Claim C4. For every relay attempt, after any sequence of events: when the socket
  closes while the attempt has not reached the connected-and-written state
  (\<^verbatim>\<open>connected && printSuccess\<close>) and is not yet resolved, the attempt resolves with
  the failure \<^verbatim>\<open>Connection closed unexpectedly\<close>, and the reply is status 500 with
  that error.
\<close>

theorem close_before_completion_fails:
  assumes "print_handler P req thrown evs = Relayed s"
    and "\<not> (connected s \<and> printSuccess s)" and "\<not> resolved s"
  shows "print_handler P req thrown (evs @ [EvClose]) = Relayed (deliver s EvClose) \<and>
    resolutions (calls (deliver s EvClose)) = [failure ''Connection closed unexpectedly''] \<and>
    reply (print_handler P req thrown (evs @ [EvClose])) =
      Some (Response 500 \<lparr>success = False, error = Some ''Connection closed unexpectedly'',
                           message = None\<rparr>)"
proof -
  have inv: "relay_inv s"
    using assms(1) by (rule print_handler_inv)
  with assms(2,3) have nc: "\<not> connected s" and none: "resolutions (calls s) = []"
    by (auto simp: relay_inv_def)
  have step: "print_handler P req thrown (evs @ [EvClose]) = Relayed (deliver s EvClose)"
    using assms(1) by (rule print_handler_snoc)
  have res: "resolutions (calls (deliver s EvClose)) = [failure ''Connection closed unexpectedly'']"
    using nc none assms(3)
    by (simp add: on_close_def resolveOnce_def call_def resolutions_append)
  show ?thesis
    using res by (simp add: step then_reply_def failure_def)
qed

theorem close_before_completion_fails_witness:
  "print_handler sample_platform
     \<lparr>ip = JStr ''192.168.1.100'', port = JNum (Num 9100), data = JArr [JNum (Num 27)]\<rparr>
     None [] =
   Relayed \<lparr>connected = False, printSuccess = False, resolved = False, buffer = [27],
            calls = [NewSocket, SetTimeout 10000,
                     SocketConnect (JNum (Num 9100)) (JStr ''192.168.1.100'')]\<rparr> \<and>
   reply (print_handler sample_platform
     \<lparr>ip = JStr ''192.168.1.100'', port = JNum (Num 9100), data = JArr [JNum (Num 27)]\<rparr>
     None ([] @ [EvClose])) =
   Some (Response 500 \<lparr>success = False, error = Some ''Connection closed unexpectedly'',
                        message = None\<rparr>)"
proof -
  note closed = close_before_completion_fails [OF sample_request_relayed]
  have "reply (print_handler sample_platform
     \<lparr>ip = JStr ''192.168.1.100'', port = JNum (Num 9100), data = JArr [JNum (Num 27)]\<rparr>
     None ([] @ [EvClose])) =
   Some (Response 500 \<lparr>success = False, error = Some ''Connection closed unexpectedly'',
                        message = None\<rparr>)"
    by (rule closed [THEN conjunct2, THEN conjunct2]) simp_all
  with sample_request_relayed show ?thesis
    by (rule conjI)
qed

text \<open>
  Claim C5. The socket's timeout is set to 10000 ms. For every relay attempt, after
  any sequence of events: when the timeout fires while the attempt is not yet
  resolved, the socket is destroyed and then the attempt resolves with the failure
  \<^verbatim>\<open>Connection timeout - printer may be offline or unreachable\<close>; the reply is status
  500 with exactly that error.
\<close>

theorem timeout_destroys_and_fails:
  assumes "print_handler P req thrown evs = Relayed s" and "\<not> resolved s"
  shows "SetTimeout 10000 \<in> set (calls s) \<and>
    print_handler P req thrown (evs @ [EvTimeout]) = Relayed (deliver s EvTimeout) \<and>
    calls (deliver s EvTimeout) = calls s @ [SocketDestroy,
      Resolve (failure ''Connection timeout - printer may be offline or unreachable'')] \<and>
    reply (print_handler P req thrown (evs @ [EvTimeout])) =
      Some (Response 500 \<lparr>success = False,
        error = Some ''Connection timeout - printer may be offline or unreachable'',
        message = None\<rparr>)"
proof -
  have inv: "relay_inv s"
    using assms(1) by (rule print_handler_inv)
  with assms(2) have none: "resolutions (calls s) = []"
    by (simp add: relay_inv_def)
  have t: "SetTimeout 10000 \<in> set (calls s)"
    using relayed_calls_start [OF assms(1)] by auto
  have step: "print_handler P req thrown (evs @ [EvTimeout]) = Relayed (deliver s EvTimeout)"
    using assms(1) by (rule print_handler_snoc)
  have c: "calls (deliver s EvTimeout) = calls s @ [SocketDestroy,
      Resolve (failure ''Connection timeout - printer may be offline or unreachable'')]"
    using assms(2) by (simp add: on_timeout_def resolveOnce_def call_def)
  show ?thesis
    using none t c by (simp add: step resolutions_append then_reply_def failure_def)
qed

theorem timeout_destroys_and_fails_witness:
  "print_handler sample_platform
     \<lparr>ip = JStr ''192.168.1.100'', port = JNum (Num 9100), data = JArr [JNum (Num 27)]\<rparr>
     None [] =
   Relayed \<lparr>connected = False, printSuccess = False, resolved = False, buffer = [27],
            calls = [NewSocket, SetTimeout 10000,
                     SocketConnect (JNum (Num 9100)) (JStr ''192.168.1.100'')]\<rparr> \<and>
   reply (print_handler sample_platform
     \<lparr>ip = JStr ''192.168.1.100'', port = JNum (Num 9100), data = JArr [JNum (Num 27)]\<rparr>
     None ([] @ [EvTimeout])) =
   Some (Response 500 \<lparr>success = False,
     error = Some ''Connection timeout - printer may be offline or unreachable'',
     message = None\<rparr>)"
proof -
  note timed_out = timeout_destroys_and_fails [OF sample_request_relayed]
  have "reply (print_handler sample_platform
     \<lparr>ip = JStr ''192.168.1.100'', port = JNum (Num 9100), data = JArr [JNum (Num 27)]\<rparr>
     None ([] @ [EvTimeout])) =
   Some (Response 500 \<lparr>success = False,
     error = Some ''Connection timeout - printer may be offline or unreachable'',
     message = None\<rparr>)"
    by (rule timed_out [THEN conjunct2, THEN conjunct2, THEN conjunct2]) simp_all
  with sample_request_relayed show ?thesis
    by (rule conjI)
qed

text \<open>
  Claim C6. For every valid request (an address of four dot-separated groups of one
  to three digits, a port that is absent or between 1 and 65535, a non-empty sequence
  of bytes as payload): when \<^verbatim>\<open>socket.connect\<close> does not raise, the connect event
  arrives, the write of the whole buffer and the end of the output succeed, and the
  socket then closes, the attempt resolves with
  \<^verbatim>\<open>{success: true, message: "Print job sent successfully"}\<close> and the reply is that
  object with status 200.
\<close>

theorem successful_print_replies_200:
  assumes "four_dot_groups a" and "valid_port pv" and "bs \<noteq> []"
  shows "relay_calls (print_handler P \<lparr>ip = JStr a, port = pv, data = js_bytes bs\<rparr> None
             [EvConnect IoOk, EvClose]) =
           [NewSocket, SetTimeout 10000, SocketConnect (or_else pv (JNum (Num 9100))) (JStr a),
            SocketWrite bs, SocketEnd,
            Resolve \<lparr>success = True, error = None,
                     message = Some ''Print job sent successfully''\<rparr>] \<and>
         reply (print_handler P \<lparr>ip = JStr a, port = pv, data = js_bytes bs\<rparr> None
             [EvConnect IoOk, EvClose]) =
           Some (Response 200 \<lparr>success = True, error = None,
                                message = Some ''Print job sent successfully''\<rparr>)"
proof -
  have "ipRegex_test a"
    using assms(1) by (simp add: ipRegex_four_dot_groups)
  moreover have "Buffer_from P (map (\<lambda>b. JNum (Num (of_int (uint b)))) bs) = Inr bs"
    using Buffer_from_js_bytes [of P bs] by (simp add: js_bytes_def)
  ultimately have "validate P \<lparr>ip = JStr a, port = pv, data = js_bytes bs\<rparr> =
      Inr (Inr (or_else pv (JNum (Num 9100)), JStr a, bs))"
    unfolding js_bytes_def using assms(2,3) by (intro validate_accepts)
  then show ?thesis
    by (simp add: print_handler_def run_connect_close print_sent_def then_reply_def)
qed

theorem successful_print_replies_200_witness:
  "four_dot_groups ''192.168.1.100'' \<and> valid_port (JNum (Num 9100)) \<and>
   [27, 64, 72, 101, 108, 108, 111, 10] \<noteq> ([] :: byte list) \<and>
   reply (print_handler sample_platform
       \<lparr>ip = JStr ''192.168.1.100'', port = JNum (Num 9100),
         data = js_bytes [27, 64, 72, 101, 108, 108, 111, 10]\<rparr> None
       [EvConnect IoOk, EvClose]) =
     Some (Response 200 \<lparr>success = True, error = None,
                          message = Some ''Print job sent successfully''\<rparr>)"
proof -
  have a: "four_dot_groups ''192.168.1.100''"
    by (simp add: four_dot_groups_def is_group_def is_digit_def)
  have p: "valid_port (JNum (Num 9100))"
    by simp
  have b: "[27, 64, 72, 101, 108, 108, 111, 10] \<noteq> ([] :: byte list)"
    by simp
  from successful_print_replies_200 [OF a p b, of sample_platform] a p b show ?thesis
    by blast
qed

end
